theory Spec2Isabelle
  imports Main
begin

section \<open>valmid: the decode-validate-dispatch middleware\<close>

text \<open>
  A shallow embedding of \<^verbatim>\<open>valmid.go\<close>. The package is generic over the input shape
  \<^verbatim>\<open>T\<close>; here a Go type is a tag of type \<open>'t\<close> and the values of all shapes live in
  one universe \<open>'v\<close>, with \<open>zero T\<close> the zero value of the type \<open>T\<close>. Errors are
  values of a type \<open>'e\<close>, and everything a handler can change (the response writer,
  captured variables) is a world of type \<open>'w\<close> that handlers take and return.
\<close>

subsection \<open>Requests and their context\<close>

text \<open>
  A Go interface value as stored in a context: a pointer to an instance of the type
  \<open>T\<close> (\<open>ptr T (Some x)\<close>), a typed nil pointer (\<open>ptr T None\<close>), or a value of any
  other dynamic type.
\<close>

datatype ('t, 'v) any = ptr 't "'v option" | other_value

text \<open>The one key the package uses, \<^verbatim>\<open>httpin.Input\<close>, and the keys of other code.\<close>

datatype context_key = httpin_Input | other_key string

text \<open>
  \<^verbatim>\<open>context.Context\<close>: the background context, or a parent extended by one binding.
  \<open>Value\<close> walks from the innermost binding outwards; \<open>None\<close> is the nil interface.
\<close>

datatype ('t, 'v) go_context = Background | WithValue "('t, 'v) go_context" context_key "('t, 'v) any"

fun Value :: "('t, 'v) go_context \<Rightarrow> context_key \<Rightarrow> ('t, 'v) any option" where
  "Value Background k = None"
| "Value (WithValue parent k' val) k = (if k = k' then Some val else Value parent k)"

text \<open>
  \<^verbatim>\<open>http.Request\<close>: the parts of a request a field can be bound from, and its context.
  Query, header and form entries are kept in request order, one pair per occurrence.
\<close>

record ('t, 'v) request =
  path_values :: "(string \<times> string) list"
  query :: "(string \<times> string) list"
  header :: "(string \<times> string) list"
  form :: "(string \<times> string) list"
  body :: string
  ctx :: "('t, 'v) go_context"

definition Context :: "('t, 'v) request \<Rightarrow> ('t, 'v) go_context" where
  "Context r = ctx r"

text \<open>\<^verbatim>\<open>r.WithContext(ctx)\<close> returns a copy of the request; \<open>r\<close> itself is not changed.\<close>

definition WithContext :: "('t, 'v) request \<Rightarrow> ('t, 'v) go_context \<Rightarrow> ('t, 'v) request" where
  "WithContext r c = r\<lparr>ctx := c\<rparr>"

subsection \<open>Handlers, the collaborators and the registry\<close>

datatype panic = Panic string | nil_dereference

text \<open>\<^verbatim>\<open>ErrorHandlerFunc\<close>; a variable of this type may be nil, which is \<open>None\<close>.\<close>

type_synonym ('t, 'v, 'e, 'w) ErrorHandlerFunc = "'w \<Rightarrow> ('t, 'v) request \<Rightarrow> 'e \<Rightarrow> 'w"

text \<open>
  The two libraries, as far as the package uses them: a core built by \<^verbatim>\<open>httpin.New\<close>
  decodes a request into an interface value or an error, and a validator checks an
  interface value and returns an error or nil. Decoding reads the request; that reading
  the body uses it up is not tracked.
\<close>

record ('t, 'v, 'e) Core =
  Decode :: "('t, 'v) request \<Rightarrow> 'e + ('t, 'v) any"

record ('t, 'v, 'e) Validate =
  Struct :: "('t, 'v) any \<Rightarrow> 'e option"

text \<open>
  The package variables \<^verbatim>\<open>defaultErrorHandler\<close> and \<^verbatim>\<open>defaultValidator\<close>. The model is
  sequential: the lock \<^verbatim>\<open>mu\<close> that guards them is not represented, and the setters and
  getters are the assignments and reads they perform under it.
\<close>

record ('t, 'v, 'e, 'w) registry =
  defaultErrorHandler :: "('t, 'v, 'e, 'w) ErrorHandlerFunc option"
  defaultValidator :: "('t, 'v, 'e) Validate option"

definition SetErrorHandler ::
  "('t, 'v, 'e, 'w) ErrorHandlerFunc option \<Rightarrow> ('t, 'v, 'e, 'w) registry \<Rightarrow> ('t, 'v, 'e, 'w) registry" where
  "SetErrorHandler h g = g\<lparr>defaultErrorHandler := h\<rparr>"

definition SetValidator ::
  "('t, 'v, 'e) Validate option \<Rightarrow> ('t, 'v, 'e, 'w) registry \<Rightarrow> ('t, 'v, 'e, 'w) registry" where
  "SetValidator v g = g\<lparr>defaultValidator := v\<rparr>"

definition getErrorHandler ::
  "('t, 'v, 'e, 'w) registry \<Rightarrow> ('t, 'v, 'e, 'w) ErrorHandlerFunc option" where
  "getErrorHandler g = defaultErrorHandler g"

definition getValidator :: "('t, 'v, 'e, 'w) registry \<Rightarrow> ('t, 'v, 'e) Validate option" where
  "getValidator g = defaultValidator g"

text \<open>
  The values the variables are declared with: a handler that answers with
  \<^verbatim>\<open>http.Error(w, err.Error(), http.StatusBadRequest)\<close>, and \<^verbatim>\<open>validator.New()\<close>. The
  functions \<open>http_Error\<close> and \<open>Error\<close> and the new validator are parameters.
\<close>

definition StatusBadRequest :: nat where
  "StatusBadRequest = 400"

definition initial_registry ::
  "('w \<Rightarrow> string \<Rightarrow> nat \<Rightarrow> 'w) \<Rightarrow> ('e \<Rightarrow> string) \<Rightarrow> ('t, 'v, 'e) Validate
     \<Rightarrow> ('t, 'v, 'e, 'w) registry" where
  "initial_registry http_Error Error validator_New =
     \<lparr>defaultErrorHandler = Some (\<lambda>w r err. http_Error w (Error err) StatusBadRequest),
      defaultValidator = Some validator_New\<rparr>"

text \<open>
  \<^verbatim>\<open>http.Handler\<close>: a handler runs against the registry as it is when the request
  arrives, and either panics or returns the new world. Handlers read the registry and
  do not write it.
\<close>

type_synonym ('t, 'v, 'e, 'w) Handler =
  "('t, 'v, 'e, 'w) registry \<Rightarrow> 'w \<Rightarrow> ('t, 'v) request \<Rightarrow> panic + 'w"

subsection \<open>Options\<close>

record ('t, 'v, 'e, 'w) options =
  errorHandler :: "('t, 'v, 'e, 'w) ErrorHandlerFunc option"

type_synonym ('t, 'v, 'e, 'w) Option = "('t, 'v, 'e, 'w) options \<Rightarrow> ('t, 'v, 'e, 'w) options"

definition WithErrorHandler ::
  "('t, 'v, 'e, 'w) ErrorHandlerFunc option \<Rightarrow> ('t, 'v, 'e, 'w) Option" where
  "WithErrorHandler h = (\<lambda>opts. opts\<lparr>errorHandler := h\<rparr>)"

subsection \<open>The middleware\<close>

text \<open>
  \<^verbatim>\<open>handleError\<close>: the handler of the options, or when that is nil the default read
  from the registry now. Calling a nil function value panics.
\<close>

definition handleError ::
  "('t, 'v, 'e, 'w) registry \<Rightarrow> 'w \<Rightarrow> ('t, 'v) request \<Rightarrow> ('t, 'v, 'e, 'w) options \<Rightarrow> 'e \<Rightarrow> panic + 'w" where
  "handleError g w r opts err =
     (let handler = errorHandler opts;
          handler = (case handler of None \<Rightarrow> getErrorHandler g | Some h \<Rightarrow> Some h)
      in case handler of
           None \<Rightarrow> Inl nil_dereference
         | Some h \<Rightarrow> Inr (h w r err))"

text \<open>
  The handler that \<^verbatim>\<open>Middleware\<close> returns for a given \<open>next\<close>: decode, validate with
  the registry's current validator, then either hand the error over or attach the
  input to a copy of the request and call \<open>next\<close>. A method call on a nil validator
  is a nil dereference.
\<close>

definition ServeHTTP ::
  "('t, 'v, 'e, 'w) options \<Rightarrow> ('t, 'v, 'e) Core \<Rightarrow> ('t, 'v, 'e, 'w) Handler \<Rightarrow> ('t, 'v, 'e, 'w) Handler" where
  "ServeHTTP opts core next g w r =
     (case Decode core r of
        Inl err \<Rightarrow> handleError g w r opts err
      | Inr input \<Rightarrow>
          (case getValidator g of
             None \<Rightarrow> Inl nil_dereference
           | Some v \<Rightarrow>
               (case Struct v input of
                  Some err \<Rightarrow> handleError g w r opts err
                | None \<Rightarrow>
                    (let c = WithValue (Context r) httpin_Input input
                     in next g w (WithContext r c)))))"

text \<open>
  \<^verbatim>\<open>Middleware[T](opts...)\<close>: apply the options in order to options with a nil
  handler, build the core for \<open>T\<close>, and panic when that fails. \<open>New\<close> is
  \<^verbatim>\<open>httpin.New\<close>, after the package's \<^verbatim>\<open>init\<close> has registered the \<^verbatim>\<open>path\<close> directive
  with it, and \<open>Error\<close> is the method \<^verbatim>\<open>err.Error()\<close>.
\<close>

definition Middleware ::
  "('e \<Rightarrow> string) \<Rightarrow> ('t \<Rightarrow> 'e + ('t, 'v, 'e) Core) \<Rightarrow> 't \<Rightarrow> ('t, 'v, 'e, 'w) Option list
     \<Rightarrow> panic + (('t, 'v, 'e, 'w) Handler \<Rightarrow> ('t, 'v, 'e, 'w) Handler)" where
  "Middleware Error New T opts =
     (let opts' = foldl (\<lambda>acc opt. opt acc) \<lparr>errorHandler = None\<rparr> opts
      in case New T of
           Inl err \<Rightarrow> Inl (Panic (''valmid: failed to create httpin core: '' @ Error err))
         | Inr core \<Rightarrow> Inr (\<lambda>next. ServeHTTP opts' core next))"

text \<open>
  \<^verbatim>\<open>Get[T]\<close>: the value under \<^verbatim>\<open>httpin.Input\<close>, when it is a pointer to a \<open>T\<close>, is
  dereferenced; anything else gives the zero value of \<open>T\<close>.
\<close>

definition Get :: "('t \<Rightarrow> 'v) \<Rightarrow> 't \<Rightarrow> ('t, 'v) request \<Rightarrow> panic + 'v" where
  "Get zero T r =
     (case Value (Context r) httpin_Input of
        Some (ptr T' p) \<Rightarrow>
          (if T' = T then (case p of None \<Rightarrow> Inl nil_dereference | Some x \<Rightarrow> Inr x)
           else Inr (zero T))
      | _ \<Rightarrow> Inr (zero T))"

subsection \<open>Reading the result from memory\<close>

text \<open>
  In \<open>Get\<close> above a pointer carries the instance it points to. To say what a call of
  \<^verbatim>\<open>Get\<close> does to memory, the memory is made explicit: a pointer is an address (the
  type \<open>'v\<close> above is taken to be \<open>addr\<close>), and the memory a call can reach through its
  argument is the request object \<open>r\<close> points to and the instances at the addresses.
\<close>

type_synonym addr = nat

record ('t, 'x) memory =
  request_object :: "('t, addr) request"
  instances :: "addr \<Rightarrow> 'x option"

text \<open>
  The accesses to memory: reading the request object, reading through a pointer, and
  the assignment through a pointer that other code can make. An address at which no
  instance lies does not arise in Go; reading through it is answered like a nil
  pointer.
\<close>

definition load_request :: "('t, 'x) memory \<Rightarrow> ('t, addr) request \<times> ('t, 'x) memory" where
  "load_request m = (request_object m, m)"

definition load_instance :: "addr \<Rightarrow> ('t, 'x) memory \<Rightarrow> (panic + 'x) \<times> ('t, 'x) memory" where
  "load_instance a m =
     (case instances m a of
        None \<Rightarrow> (Inl nil_dereference, m)
      | Some x \<Rightarrow> (Inr x, m))"

definition store_instance :: "addr \<Rightarrow> 'x \<Rightarrow> ('t, 'x) memory \<Rightarrow> ('t, 'x) memory" where
  "store_instance a x m = m\<lparr>instances := (instances m)(a := Some x)\<rparr>"

text \<open>
  \<^verbatim>\<open>Get[T]\<close> statement by statement, from a memory to its result and the memory after
  the call: \<^verbatim>\<open>r.Context()\<close> reads the request object, the lookup and the type
  assertion work on the context read, and \<^verbatim>\<open>*v\<close> reads the instance.
\<close>

definition Get_stateful ::
  "('t \<Rightarrow> 'x) \<Rightarrow> 't \<Rightarrow> ('t, 'x) memory \<Rightarrow> (panic + 'x) \<times> ('t, 'x) memory" where
  "Get_stateful zero T m =
     (case load_request m of
        (r, m1) \<Rightarrow>
          (case Value (Context r) httpin_Input of
             Some (ptr T' p) \<Rightarrow>
               (if T' = T
                then (case p of
                        None \<Rightarrow> (Inl nil_dereference, m1)
                      | Some a \<Rightarrow> load_instance a m1)
                else (Inr (zero T), m1))
           | _ \<Rightarrow> (Inr (zero T), m1)))"


text \<open>
  From addresses back to instances: a request whose pointers are addresses, seen with
  the instances the memory holds there.
\<close>

fun pointee :: "(addr \<Rightarrow> 'x option) \<Rightarrow> ('t, addr) any \<Rightarrow> ('t, 'x) any" where
  "pointee h (ptr T p) = ptr T (case p of None \<Rightarrow> None | Some a \<Rightarrow> h a)"
| "pointee h other_value = other_value"

fun context_in :: "(addr \<Rightarrow> 'x option) \<Rightarrow> ('t, addr) go_context \<Rightarrow> ('t, 'x) go_context" where
  "context_in h Background = Background"
| "context_in h (WithValue parent k val) = WithValue (context_in h parent) k (pointee h val)"

definition request_in :: "(addr \<Rightarrow> 'x option) \<Rightarrow> ('t, addr) request \<Rightarrow> ('t, 'x) request" where
  "request_in h r =
     \<lparr>path_values = path_values r, query = query r, header = header r, form = form r,
      body = body r, ctx = context_in h (ctx r)\<rparr>"

section \<open>The collaborators as the specification describes them\<close>

text \<open>
  Binding and validation are done by two libraries that \<^verbatim>\<open>valmid.go\<close> imports. Their
  code is not part of the package; the definitions of this section follow the
  specification's description of them.
\<close>

subsection \<open>The field source resolver\<close>

text \<open>
  Modelled from the spec: the kinds of source a field can be resolved from. The JSON
  body is bound as a whole by the assembler and is not a candidate of the resolver.
\<close>

datatype source_kind = path_parameter | query_parameter | header_field | form_field

text \<open>
  Modelled from the spec: the values a source of the request yields for a key, in
  request order; none when the key is absent from that source. An empty string is a
  value like any other.
\<close>

definition values_of :: "(string \<times> 'a) list \<Rightarrow> string \<Rightarrow> 'a list" where
  "values_of entries key = map snd (filter (\<lambda>entry. fst entry = key) entries)"

fun source_values :: "source_kind \<Rightarrow> string \<Rightarrow> ('t, 'v) request \<Rightarrow> string list" where
  "source_values path_parameter key r = values_of (path_values r) key"
| "source_values query_parameter key r = values_of (query r) key"
| "source_values header_field key r = values_of (header r) key"
| "source_values form_field key r = values_of (form r) key"

text \<open>
  Modelled from the spec: the Field Source Resolver, which is part of the binding
  library and not of \<^verbatim>\<open>valmid.go\<close>. It tries each pair of kind and key in declared
  order; the first source that yields any value wins, and no further source is
  tried. The result is the raw values of the winning source, or \<open>None\<close> for absent.
\<close>

fun resolve :: "(source_kind \<times> string) list \<Rightarrow> ('t, 'v) request \<Rightarrow> string list option" where
  "resolve [] r = None"
| "resolve ((kind, key) # rest) r =
     (let raw = source_values kind key r
      in if raw = [] then resolve rest r else Some raw)"

subsection \<open>The validation engine\<close>

text \<open>
  Modelled from the spec: assembled instances as the engine sees them: numbers, strings, sequences, a nil
  pointer, and structures (a pointer to a nested structure is the structure itself).
\<close>

datatype val =
    Int_val int
  | Str_val string
  | Seq_val "val list"
  | Nil_val
  | Struct_val "(string \<times> val) list"

text \<open>
  Modelled from the spec: a validation declaration, with the rules on the value itself, the declaration applied to
  each element when the value is a sequence, and the declarations of the fields when
  it is a structure. What a rule of type \<open>'r\<close> means is a parameter \<open>holds\<close>.
\<close>

datatype 'r decl =
  Decl (rules: "'r list") (each: "'r decl option") (nested: "(string \<times> 'r decl) list")

datatype step = Field_step string | Index_step nat

type_synonym 'r violation = "step list \<times> 'r"

text \<open>Modelled from the spec: the three kinds of error of the pipeline.\<close>

datatype 'r error =
    ConfigurationError string
  | BindingError string
  | ValidationError "'r violation list"

text \<open>
  Modelled from the spec: the Validation Engine, which is the validation library and
  not part of \<^verbatim>\<open>valmid.go\<close>. It applies every rule declared on a value, applies the
  element declaration to each element of a sequence, recurses into the fields of a
  structure, and collects every violation with the path where it was found.
\<close>

fun violations :: "('r \<Rightarrow> val \<Rightarrow> bool) \<Rightarrow> step list \<Rightarrow> 'r decl \<Rightarrow> val \<Rightarrow> 'r violation list"
  and violations_each ::
    "('r \<Rightarrow> val \<Rightarrow> bool) \<Rightarrow> step list \<Rightarrow> 'r decl \<Rightarrow> nat \<Rightarrow> val list \<Rightarrow> 'r violation list"
  and violations_fields ::
    "('r \<Rightarrow> val \<Rightarrow> bool) \<Rightarrow> step list \<Rightarrow> (string \<times> 'r decl) list \<Rightarrow> (string \<times> val) list
       \<Rightarrow> 'r violation list" where
  "violations holds p d v =
     map (\<lambda>rule. (p, rule)) (filter (\<lambda>rule. \<not> holds rule v) (rules d))
     @ (case v of
          Seq_val xs \<Rightarrow> (case each d of None \<Rightarrow> [] | Some d' \<Rightarrow> violations_each holds p d' 0 xs)
        | Struct_val fs \<Rightarrow> violations_fields holds p (nested d) fs
        | _ \<Rightarrow> [])"
| "violations_each holds p d' i [] = []"
| "violations_each holds p d' i (x # xs) =
     violations holds (p @ [Index_step i]) d' x @ violations_each holds p d' (Suc i) xs"
| "violations_fields holds p ds [] = []"
| "violations_fields holds p ds ((name, v) # fs) =
     (case map_of ds name of
        None \<Rightarrow> []
      | Some d' \<Rightarrow> violations holds (p @ [Field_step name]) d' v)
     @ violations_fields holds p ds fs"

text \<open>
  Modelled from the spec: the engine's answer, nil when nothing is violated and else a
  single error that aggregates the violations.
\<close>

definition validate :: "('r \<Rightarrow> val \<Rightarrow> bool) \<Rightarrow> 'r decl \<Rightarrow> val \<Rightarrow> 'r error option" where
  "validate holds d x =
     (case violations holds [] d x of
        [] \<Rightarrow> None
      | vs \<Rightarrow> Some (ValidationError vs))"

text \<open>
  Modelled from the spec: what it means for a rule to be violated somewhere in a
  structure. The rule is declared at the end of the path, and does not hold of the
  value found there.
\<close>

fun violates :: "('r \<Rightarrow> val \<Rightarrow> bool) \<Rightarrow> 'r decl \<Rightarrow> val \<Rightarrow> step list \<Rightarrow> 'r \<Rightarrow> bool" where
  "violates holds d v [] rule = (rule \<in> set (rules d) \<and> \<not> holds rule v)"
| "violates holds d (Seq_val xs) (Index_step i # p) rule =
     (case each d of
        None \<Rightarrow> False
      | Some d' \<Rightarrow> i < length xs \<and> violates holds d' (xs ! i) p rule)"
| "violates holds d (Struct_val fs) (Field_step name # p) rule =
     (case map_of (nested d) name of
        None \<Rightarrow> False
      | Some d' \<Rightarrow> (\<exists>v \<in> set (values_of fs name). violates holds d' v p rule))"
| "violates holds d v (s # p) rule = False"

section \<open>An example shape\<close>

text \<open>
  A shape in the manner of the package's tests, used to run the definitions on
  concrete requests:
  \<^verbatim>\<open>
  type Input struct {
      Token string   `in:"query=token;header=X-Token" validate:"required"`
      Name  string   `in:"form=name;required"         validate:"required,min=3"`
      Tags  []string `in:"query=tag"                  validate:"dive,required"`
  }
  \<close>
\<close>

datatype rule = required | min_length nat

fun example_holds :: "rule \<Rightarrow> val \<Rightarrow> bool" where
  "example_holds required v = (v \<noteq> Int_val 0 \<and> v \<noteq> Str_val [] \<and> v \<noteq> Seq_val [] \<and> v \<noteq> Nil_val)"
| "example_holds (min_length n) (Str_val s) = (n \<le> length s)"
| "example_holds (min_length n) (Seq_val xs) = (n \<le> length xs)"
| "example_holds (min_length n) (Int_val i) = (int n \<le> i)"
| "example_holds (min_length n) v = False"

definition example_decl :: "rule decl" where
  "example_decl = Decl [] None
     [(''Token'', Decl [required] None []),
      (''Name'', Decl [required, min_length 3] None []),
      (''Tags'', Decl [] (Some (Decl [required] None [])) [])]"

definition first_value :: "string list option \<Rightarrow> string" where
  "first_value raw = (case raw of Some (x # xs) \<Rightarrow> x | _ \<Rightarrow> [])"

definition example_Decode :: "(string, val) request \<Rightarrow> rule error + (string, val) any" where
  "example_Decode r =
     (case resolve [(form_field, ''name'')] r of
        None \<Rightarrow> Inl (BindingError ''Name'')
      | Some names \<Rightarrow>
          Inr (ptr ''Input'' (Some (Struct_val
            [(''Token'', Str_val (first_value
                (resolve [(query_parameter, ''token''), (header_field, ''X-Token'')] r))),
             (''Name'', Str_val (first_value (Some names))),
             (''Tags'', Seq_val (map Str_val
                (case resolve [(query_parameter, ''tag'')] r of None \<Rightarrow> [] | Some ts \<Rightarrow> ts)))]))))"

definition example_core :: "(string, val, rule error) Core" where
  "example_core = \<lparr>Decode = example_Decode\<rparr>"

definition example_New :: "string \<Rightarrow> rule error + (string, val, rule error) Core" where
  "example_New T =
     (if T = ''Input'' then Inr example_core
      else Inl (ConfigurationError ''unknown directive''))"

fun example_Error :: "rule error \<Rightarrow> string" where
  "example_Error (ConfigurationError msg) = msg"
| "example_Error (BindingError field) = ''invalid field '' @ field"
| "example_Error (ValidationError vs) = ''validation failed''"

definition example_validator :: "(string, val, rule error) Validate" where
  "example_validator =
     \<lparr>Struct = (\<lambda>input. case input of
                  ptr T (Some x) \<Rightarrow> validate example_holds example_decl x
                | _ \<Rightarrow> None)\<rparr>"

definition example_zero :: "string \<Rightarrow> val" where
  "example_zero T =
     (if T = ''Input''
      then Struct_val [(''Token'', Str_val []), (''Name'', Str_val []), (''Tags'', Seq_val [])]
      else Struct_val [])"

text \<open>The world of the example is a log of the calls made, with the error handed over.\<close>

type_synonym example_world = "(string \<times> rule error option) list"

definition example_handler ::
  "string \<Rightarrow> (string, val, rule error, example_world) ErrorHandlerFunc" where
  "example_handler name = (\<lambda>w r err. w @ [(name, Some err)])"

definition example_next :: "(string, val, rule error, example_world) Handler" where
  "example_next = (\<lambda>g w r. Inr (w @ [(''next'', None)]))"

definition example_registry :: "(string, val, rule error, example_world) registry" where
  "example_registry =
     \<lparr>defaultErrorHandler = Some (example_handler ''default''),
      defaultValidator = Some example_validator\<rparr>"

definition example_request ::
  "(string \<times> string) list \<Rightarrow> (string \<times> string) list \<Rightarrow> (string \<times> string) list
     \<Rightarrow> (string, val) request" where
  "example_request q h f =
     \<lparr>path_values = [], query = q, header = h, form = f, body = [], ctx = Background\<rparr>"

text \<open>
  A request that binds and validates, one that misses the required form field, and
  one that binds but breaks three rules; its token is present in the query, but empty.
\<close>

definition good_request :: "(string, val) request" where
  "good_request = example_request [(''token'', ''abc''), (''tag'', ''a'')] [] [(''name'', ''John'')]"

definition unbound_request :: "(string, val) request" where
  "unbound_request = example_request [(''token'', ''abc'')] [] []"

definition invalid_request :: "(string, val) request" where
  "invalid_request =
     example_request [(''token'', []), (''tag'', ''a''), (''tag'', [])]
       [(''X-Token'', ''secret'')] [(''name'', ''Jo'')]"

definition good_input :: val where
  "good_input = Struct_val
     [(''Token'', Str_val ''abc''), (''Name'', Str_val ''John''), (''Tags'', Seq_val [Str_val ''a''])]"

definition invalid_input :: val where
  "invalid_input = Struct_val
     [(''Token'', Str_val []), (''Name'', Str_val ''Jo''),
      (''Tags'', Seq_val [Str_val ''a'', Str_val []])]"

text \<open>A request without the query parameter \<^verbatim>\<open>token\<close>, but with the header.\<close>

definition fallback_request :: "(string, val) request" where
  "fallback_request = example_request [] [(''X-Token'', ''secret'')] [(''name'', ''John'')]"







section \<open>Properties of the middleware\<close>

subsection \<open>What the parts do\<close>

lemmas example_defs =
  example_Decode_def example_core_def example_request_def good_request_def
  unbound_request_def invalid_request_def values_of_def first_value_def
  good_input_def invalid_input_def example_New_def example_registry_def
  example_validator_def example_handler_def example_next_def example_decl_def
  example_zero_def validate_def getValidator_def getErrorHandler_def

lemma Middleware_built:
  assumes "New T = Inr core"
  shows "Middleware Error New T os =
           Inr (\<lambda>next. ServeHTTP (foldl (\<lambda>acc opt. opt acc) \<lparr>errorHandler = None\<rparr> os) core next)"
  using assms by (simp add: Middleware_def)

lemma options_last_WithErrorHandler:
  "errorHandler (foldl (\<lambda>acc opt. opt acc) start (os @ [WithErrorHandler h])) = h"
  by (simp add: WithErrorHandler_def)

lemma handleError_calls_handler:
  assumes "errorHandler opts = Some h \<or> (errorHandler opts = None \<and> getErrorHandler g = Some h)"
  shows "handleError g w r opts err = Inr (h w r err)"
  using assms by (auto simp: handleError_def)

lemma handleError_without_handler:
  assumes "errorHandler opts = None" and "getErrorHandler g = None"
  shows "handleError g w r opts err = Inl nil_dereference"
  using assms by (simp add: handleError_def)

lemma ServeHTTP_failure:
  assumes "Decode core r = Inl err \<or>
           (\<exists>input v. Decode core r = Inr input \<and> getValidator g = Some v \<and> Struct v input = Some err)"
  shows "ServeHTTP opts core next g w r = handleError g w r opts err"
  using assms by (auto simp: ServeHTTP_def)

lemma ServeHTTP_success:
  assumes "Decode core r = Inr input" and "getValidator g = Some v" and "Struct v input = None"
  shows "ServeHTTP opts core next g w r =
           next g w (WithContext r (WithValue (Context r) httpin_Input input))"
  using assms by (simp add: ServeHTTP_def)

lemma Get_attached:
  "Get zero T (WithContext r (WithValue c httpin_Input (ptr T (Some x)))) = Inr x"
  by (simp add: Get_def WithContext_def Context_def)

lemma Get_nothing_attached:
  assumes "Value (Context r) httpin_Input = None"
  shows "Get zero T r = Inr (zero T)"
  using assms by (simp add: Get_def)

lemma Get_other_shape:
  assumes "T' \<noteq> T"
  shows "Get zero T (WithContext r (WithValue c httpin_Input (ptr T' p))) = Inr (zero T)"
  using assms by (simp add: Get_def WithContext_def Context_def)

lemma registry_after_SetErrorHandler:
  "getValidator (SetErrorHandler h g) = getValidator g"
  "getErrorHandler (SetErrorHandler h g) = h"
  by (simp_all add: getValidator_def getErrorHandler_def SetErrorHandler_def)

lemma registry_after_SetValidator:
  "getValidator (SetValidator v g) = v"
  "getErrorHandler (SetValidator v g) = getErrorHandler g"
  by (simp_all add: getValidator_def getErrorHandler_def SetValidator_def)

text \<open>
  With no handler in force the call of the nil function value panics; the next
  handler is still not reached.
\<close>

lemma failure_without_handler_panics:
  assumes "Decode core r = Inl err \<or>
           (\<exists>input v. Decode core r = Inr input \<and> getValidator g = Some v \<and> Struct v input = Some err)"
    and "errorHandler opts = None" and "getErrorHandler g = None"
  shows "ServeHTTP opts core next g w r = Inl nil_dereference"
  using ServeHTTP_failure[OF assms(1)] handleError_without_handler[OF assms(2,3)] by simp

text \<open>
  Until a handler is set, a failure of a middleware without an override is answered by
  the declared default: a bad-request status with the text of the error.
\<close>

lemma initial_registry_answers_bad_request:
  assumes "Decode core r = Inl err \<or>
           (\<exists>input. Decode core r = Inr input \<and> Struct validator_New input = Some err)"
    and "errorHandler opts = None"
  shows "ServeHTTP opts core next (initial_registry http_Error Error validator_New) w r
           = Inr (http_Error w (Error err) StatusBadRequest)"
proof -
  let ?g = "initial_registry http_Error Error validator_New"
  have "Decode core r = Inl err \<or>
      (\<exists>input v. Decode core r = Inr input \<and> getValidator ?g = Some v \<and> Struct v input = Some err)"
    using assms(1) by (simp add: getValidator_def initial_registry_def)
  then have "ServeHTTP opts core next ?g w r = handleError ?g w r opts err"
    by (rule ServeHTTP_failure)
  then show ?thesis
    using assms(2) by (simp add: handleError_def getErrorHandler_def initial_registry_def)
qed

subsection \<open>The success path\<close>

text \<open>
  Claim C1. For a shape \<open>T\<close> whose core was built, and a request that decodes to an
  instance \<open>x\<close> of \<open>T\<close> which the registry's validator accepts, the middleware calls
  the next handler, on a copy of the request whose context holds the instance, and
  \<open>Get\<close> on that request returns exactly \<open>x\<close>.
\<close>

theorem valid_request_reaches_next:
  assumes "New T = Inr core"
    and "Decode core r = Inr (ptr T (Some x))"
    and "getValidator g = Some v"
    and "Struct v (ptr T (Some x)) = None"
  shows "\<exists>mw r'. Middleware Error New T os = Inr mw
           \<and> r' = WithContext r (WithValue (Context r) httpin_Input (ptr T (Some x)))
           \<and> mw next g w r = next g w r'
           \<and> Get zero T r' = Inr x"
proof -
  let ?opts = "foldl (\<lambda>acc opt. opt acc) \<lparr>errorHandler = None\<rparr> os"
  let ?r' = "WithContext r (WithValue (Context r) httpin_Input (ptr T (Some x)))"
  have built: "Middleware Error New T os = Inr (\<lambda>next. ServeHTTP ?opts core next)"
    using assms(1) by (simp add: Middleware_def)
  have served: "ServeHTTP ?opts core next g w r = next g w ?r'"
    using assms(2-4) by (rule ServeHTTP_success)
  have read: "Get zero T ?r' = Inr x"
    by (rule Get_attached)
  from built served read show ?thesis by simp
qed

theorem valid_request_reaches_next_witness:
  "example_New ''Input'' = Inr example_core
   \<and> Decode example_core good_request = Inr (ptr ''Input'' (Some good_input))
   \<and> getValidator example_registry = Some example_validator
   \<and> Struct example_validator (ptr ''Input'' (Some good_input)) = None
   \<and> (\<exists>mw r'. Middleware example_Error example_New ''Input'' [] = Inr mw
         \<and> r' = WithContext good_request
                  (WithValue (Context good_request) httpin_Input (ptr ''Input'' (Some good_input)))
         \<and> mw example_next example_registry [] good_request = example_next example_registry [] r'
         \<and> Get example_zero ''Input'' r' = Inr good_input)"
proof -
  have built: "example_New ''Input'' = Inr example_core"
    by (simp add: example_New_def)
  have decoded: "Decode example_core good_request = Inr (ptr ''Input'' (Some good_input))"
    by (simp add: example_defs)
  have validator: "getValidator example_registry = Some example_validator"
    by (simp add: getValidator_def example_registry_def)
  have valid: "Struct example_validator (ptr ''Input'' (Some good_input)) = None"
    by (simp add: example_defs)
  from valid_request_reaches_next[where New = example_New and T = "''Input''"
        and Error = example_Error and os = "[]" and ?next = example_next and w = "[]"
        and zero = example_zero, OF built decoded validator valid]
    built decoded validator valid
  show ?thesis by simp
qed

subsection \<open>The failure path\<close>

text \<open>
  Claim C2. When decoding fails with \<open>err\<close>, or decoding succeeds and the validator
  rejects the input with \<open>err\<close>, and \<open>h\<close> is the error handler in force, the whole
  effect of serving the request is one application of \<open>h\<close> to the incoming world,
  the request and that error. The next handler does not occur in the result: it is
  not called. The error is the decoder's on a binding failure and the validator's on
  a validation failure.
\<close>

theorem failure_short_circuits:
  assumes "Decode core r = Inl err \<or>
           (\<exists>input v. Decode core r = Inr input \<and> getValidator g = Some v \<and> Struct v input = Some err)"
    and "errorHandler opts = Some h \<or> (errorHandler opts = None \<and> getErrorHandler g = Some h)"
  shows "ServeHTTP opts core next g w r = Inr (h w r err)"
  using ServeHTTP_failure[OF assms(1)] handleError_calls_handler[OF assms(2)] by simp

theorem failure_short_circuits_witness:
  "Decode example_core unbound_request = Inl (BindingError ''Name'')
   \<and> errorHandler \<lparr>errorHandler = None\<rparr> = None
   \<and> getErrorHandler example_registry = Some (example_handler ''default'')
   \<and> ServeHTTP \<lparr>errorHandler = None\<rparr> example_core example_next example_registry []
        unbound_request = Inr [(''default'', Some (BindingError ''Name''))]"
proof -
  have failed: "Decode example_core unbound_request = Inl (BindingError ''Name'')"
    by (simp add: example_defs)
  have handler: "getErrorHandler example_registry = Some (example_handler ''default'')"
    by (simp add: getErrorHandler_def example_registry_def)
  have "ServeHTTP \<lparr>errorHandler = None\<rparr> example_core example_next example_registry []
          unbound_request = Inr (example_handler ''default'' [] unbound_request (BindingError ''Name''))"
    by (rule failure_short_circuits) (simp_all add: failed handler)
  with failed handler show ?thesis by (simp add: example_handler_def)
qed

text \<open>
  Claim C3. A middleware is built without reading the registry. When a request fails,
  a middleware whose last option was \<open>WithErrorHandler (Some h)\<close> calls \<open>h\<close>, whatever
  handler the registry holds by then; a middleware built with no option calls the
  handler the registry holds when the request is served, so a handler set after the
  middleware was built is the one called.
\<close>

theorem error_handler_resolution:
  assumes "New T = Inr core"
    and "Decode core r = Inl err \<or>
         (\<exists>input v. Decode core r = Inr input \<and> getValidator g = Some v \<and> Struct v input = Some err)"
  shows "(\<exists>mw. Middleware Error New T (os @ [WithErrorHandler (Some h)]) = Inr mw
            \<and> (\<forall>h'. mw next (SetErrorHandler h' g) w r = Inr (h w r err)))
       \<and> (\<exists>mw. Middleware Error New T [] = Inr mw
            \<and> (\<forall>h'. mw next (SetErrorHandler (Some h') g) w r = Inr (h' w r err)))"
proof -
  let ?with = "foldl (\<lambda>acc opt. opt acc) \<lparr>errorHandler = None\<rparr> (os @ [WithErrorHandler (Some h)])"
  let ?none = "foldl (\<lambda>acc opt. opt acc) \<lparr>errorHandler = None\<rparr> []"
  have fails: "Decode core r = Inl err \<or>
      (\<exists>input v. Decode core r = Inr input \<and> getValidator (SetErrorHandler h' g) = Some v
         \<and> Struct v input = Some err)" for h'
    using assms(2) by (simp add: registry_after_SetErrorHandler)
  have override: "errorHandler ?with = Some h"
    by (rule options_last_WithErrorHandler)
  have with_override:
    "ServeHTTP ?with core next (SetErrorHandler h' g) w r = Inr (h w r err)" for h'
    using ServeHTTP_failure[OF fails] handleError_calls_handler[of ?with h] override by simp
  have without:
    "ServeHTTP ?none core next (SetErrorHandler (Some h') g) w r = Inr (h' w r err)" for h'
    using ServeHTTP_failure[OF fails]
      handleError_calls_handler[of ?none h' "SetErrorHandler (Some h') g"]
    by (simp add: registry_after_SetErrorHandler)
  show ?thesis
  proof (intro conjI)
    show "\<exists>mw. Middleware Error New T (os @ [WithErrorHandler (Some h)]) = Inr mw
            \<and> (\<forall>h'. mw next (SetErrorHandler h' g) w r = Inr (h w r err))"
      using assms(1) with_override by (simp add: Middleware_def)
    show "\<exists>mw. Middleware Error New T [] = Inr mw
            \<and> (\<forall>h'. mw next (SetErrorHandler (Some h') g) w r = Inr (h' w r err))"
      using assms(1) without by (simp add: Middleware_def)
  qed
qed

theorem error_handler_resolution_witness:
  "example_New ''Input'' = Inr example_core
   \<and> Decode example_core unbound_request = Inl (BindingError ''Name'')
   \<and> (\<exists>mw. Middleware example_Error example_New ''Input''
              [WithErrorHandler (Some (example_handler ''override''))] = Inr mw
         \<and> mw example_next (SetErrorHandler (Some (example_handler ''replaced'')) example_registry)
              [] unbound_request = Inr [(''override'', Some (BindingError ''Name''))])
   \<and> (\<exists>mw. Middleware example_Error example_New ''Input'' [] = Inr mw
         \<and> mw example_next (SetErrorHandler (Some (example_handler ''replaced'')) example_registry)
              [] unbound_request = Inr [(''replaced'', Some (BindingError ''Name''))])"
proof -
  have built: "example_New ''Input'' = Inr example_core"
    by (simp add: example_New_def)
  have failed: "Decode example_core unbound_request = Inl (BindingError ''Name'')
      \<or> (\<exists>input v. Decode example_core unbound_request = Inr input
            \<and> getValidator example_registry = Some v \<and> Struct v input = Some (BindingError ''Name''))"
    by (simp add: example_defs)
  have decode: "Decode example_core unbound_request = Inl (BindingError ''Name'')"
    by (simp add: example_defs)
  from error_handler_resolution[where New = example_New and T = "''Input''"
        and Error = example_Error and os = "[]" and h = "example_handler ''override''"
        and ?next = example_next and w = "[]", OF built failed]
  obtain mw1 mw2 where
    "Middleware example_Error example_New ''Input''
       ([] @ [WithErrorHandler (Some (example_handler ''override''))]) = Inr mw1"
    "\<forall>h'. mw1 example_next (SetErrorHandler h' example_registry) [] unbound_request =
       Inr (example_handler ''override'' [] unbound_request (BindingError ''Name''))"
    "Middleware example_Error example_New ''Input'' [] = Inr mw2"
    "\<forall>h'. mw2 example_next (SetErrorHandler (Some h') example_registry) [] unbound_request =
       Inr (h' [] unbound_request (BindingError ''Name''))"
    by blast
  then have
    "Middleware example_Error example_New ''Input''
       [WithErrorHandler (Some (example_handler ''override''))] = Inr mw1
     \<and> mw1 example_next (SetErrorHandler (Some (example_handler ''replaced'')) example_registry)
         [] unbound_request = Inr [(''override'', Some (BindingError ''Name''))]"
    "Middleware example_Error example_New ''Input'' [] = Inr mw2
     \<and> mw2 example_next (SetErrorHandler (Some (example_handler ''replaced'')) example_registry)
         [] unbound_request = Inr [(''replaced'', Some (BindingError ''Name''))]"
    by (simp_all add: example_handler_def)
  with built decode show ?thesis by blast
qed

text \<open>
  Claim C10. On a failing request the handler in force is given the request \<open>r\<close>
  itself, with the context it came in with: the copy with the attached input is only
  made on the success path. So when nothing was attached under \<^verbatim>\<open>httpin.Input\<close>
  before, \<open>Get\<close> on the request the handler sees, and on \<open>r\<close> afterwards, is the
  zero value of \<open>T\<close>, as it is on a request no middleware has served.
\<close>

theorem failure_attaches_nothing:
  assumes "Decode core r = Inl err \<or>
           (\<exists>input v. Decode core r = Inr input \<and> getValidator g = Some v \<and> Struct v input = Some err)"
    and "errorHandler opts = Some h \<or> (errorHandler opts = None \<and> getErrorHandler g = Some h)"
    and "Value (Context r) httpin_Input = None"
  shows "ServeHTTP opts core next g w r = Inr (h w r err) \<and> Get zero T r = Inr (zero T)"
  using ServeHTTP_failure[OF assms(1)] handleError_calls_handler[OF assms(2)]
    Get_nothing_attached[OF assms(3)]
  by simp

theorem failure_attaches_nothing_witness:
  "Decode example_core unbound_request = Inl (BindingError ''Name'')
   \<and> errorHandler \<lparr>errorHandler = Some (\<lambda>w r' e. Get example_zero ''Input'' r')\<rparr>
       = Some (\<lambda>w r' e. Get example_zero ''Input'' r')
   \<and> Value (Context unbound_request) httpin_Input = None
   \<and> ServeHTTP \<lparr>errorHandler = Some (\<lambda>w r' e. Get example_zero ''Input'' r')\<rparr> example_core
        (\<lambda>g w r'. Inr w) \<lparr>defaultErrorHandler = None, defaultValidator = Some example_validator\<rparr>
        (Inl nil_dereference) unbound_request
      = Inr (Inr (example_zero ''Input''))"
proof -
  have failed: "Decode example_core unbound_request = Inl (BindingError ''Name'')"
    by (simp add: example_defs)
  have fresh: "Value (Context unbound_request) httpin_Input = None"
    by (simp add: Context_def unbound_request_def example_request_def)
  have "ServeHTTP \<lparr>errorHandler = Some (\<lambda>w r' e. Get example_zero ''Input'' r')\<rparr> example_core
          (\<lambda>g w r'. Inr w) \<lparr>defaultErrorHandler = None, defaultValidator = Some example_validator\<rparr>
          (Inl nil_dereference) unbound_request
        = Inr ((\<lambda>w r' e. Get example_zero ''Input'' r') (Inl nil_dereference) unbound_request
                 (BindingError ''Name''))
      \<and> Get example_zero ''Input'' unbound_request = Inr (example_zero ''Input'')"
    by (rule failure_attaches_nothing) (simp_all add: failed fresh)
  with failed fresh show ?thesis by simp
qed

subsection \<open>Construction\<close>

text \<open>
  Claim C6. When \<^verbatim>\<open>httpin.New\<close> rejects the shape, as it does for a field with an
  unknown source kind, \<open>Middleware\<close> panics with the library's message and returns no
  middleware, so no request is ever served for that shape.
\<close>

theorem malformed_shape_panics:
  assumes "New T = Inl err"
  shows "Middleware Error New T os = Inl (Panic (''valmid: failed to create httpin core: '' @ Error err))
       \<and> (\<forall>mw. Middleware Error New T os \<noteq> Inr mw)"
  using assms by (simp add: Middleware_def)

theorem malformed_shape_panics_witness:
  "example_New ''BadInput'' = Inl (ConfigurationError ''unknown directive'')
   \<and> Middleware example_Error example_New ''BadInput''
        ([] :: (string, val, rule error, example_world) Option list)
      = Inl (Panic ''valmid: failed to create httpin core: unknown directive'')"
proof -
  have rejected: "example_New ''BadInput'' = Inl (ConfigurationError ''unknown directive'')"
    by (simp add: example_New_def)
  from malformed_shape_panics[where New = example_New and T = "''BadInput''"
      and Error = example_Error
      and os = "[] :: (string, val, rule error, example_world) Option list", OF rejected] rejected
  show ?thesis by simp
qed

subsection \<open>Reading the result\<close>

text \<open>
  Claim C7. \<open>Get\<close> for the shape \<open>T\<close> returns the zero value of \<open>T\<close>, and does not
  fail, on a request with nothing attached under \<^verbatim>\<open>httpin.Input\<close> (no middleware
  ran), and on the request a middleware for another shape \<open>T'\<close> hands on, whose
  attached value is a pointer to a \<open>T'\<close>.
\<close>

theorem Get_zero_when_absent:
  "(Value (Context r) httpin_Input = None \<longrightarrow> Get zero T r = Inr (zero T))
   \<and> (T' \<noteq> T \<longrightarrow>
        Get zero T (WithContext r (WithValue (Context r) httpin_Input (ptr T' p))) = Inr (zero T))"
  using Get_nothing_attached[of r zero T] Get_other_shape[of T' T zero r "Context r" p] by simp

theorem Get_zero_when_absent_witness:
  "Value (Context good_request) httpin_Input = None
   \<and> Get example_zero ''Input'' good_request = Inr (example_zero ''Input'')
   \<and> ''Other'' \<noteq> ''Input''
   \<and> Get example_zero ''Input''
        (WithContext good_request
           (WithValue (Context good_request) httpin_Input (ptr ''Other'' (Some good_input))))
      = Inr (example_zero ''Input'')"
proof -
  have fresh: "Value (Context good_request) httpin_Input = None"
    by (simp add: Context_def good_request_def example_request_def)
  have other: "''Other'' \<noteq> ''Input''"
    by simp
  from Get_zero_when_absent[of good_request example_zero "''Input''" "''Other''" "Some good_input"]
    fresh other
  show ?thesis by simp
qed



lemma Value_context_in:
  "Value (context_in h c) k = map_option (pointee h) (Value c k)"
  by (induction c) simp_all

lemma Get_stateful_refines_Get:
  "fst (Get_stateful zero T m) = Get zero T (request_in (instances m) (request_object m))"
proof (cases "Value (Context (request_object m)) httpin_Input")
  case None
  then show ?thesis
    by (simp add: Get_stateful_def Get_def load_request_def request_in_def Context_def
        Value_context_in)
next
  case (Some val)
  show ?thesis
  proof (cases val)
    case (ptr T' p)
    with Some show ?thesis
      by (cases p; cases "instances m (the p)")
        (simp_all add: Get_stateful_def Get_def load_request_def load_instance_def
          request_in_def Context_def Value_context_in)
  next
    case other_value
    with Some show ?thesis
      by (simp add: Get_stateful_def Get_def load_request_def request_in_def Context_def
          Value_context_in)
  qed
qed


text \<open>
  The result does depend on the memory: after an assignment through the attached
  pointer, a call returns the value assigned.
\<close>

lemma Get_stateful_after_store:
  assumes "Value (Context (request_object m)) httpin_Input = Some (ptr T (Some a))"
  shows "Get_stateful zero T (store_instance a y m) = (Inr y, store_instance a y m)"
  using assms by (simp add: Get_stateful_def load_request_def load_instance_def store_instance_def)




section \<open>Properties of the collaborators as the specification describes them\<close>

subsection \<open>Source resolution\<close>

lemma values_of_present:
  assumes "(key, value) \<in> set entries"
  shows "values_of entries key \<noteq> []"
proof -
  from assms have "(key, value) \<in> set (filter (\<lambda>entry. fst entry = key) entries)"
    by simp
  then have "filter (\<lambda>entry. fst entry = key) entries \<noteq> []"
    by (metis empty_iff empty_set)
  then show ?thesis by (simp add: values_of_def)
qed

lemma resolve_skips_absent:
  assumes "\<forall>s \<in> set pre. source_values (fst s) (snd s) r = []"
  shows "resolve (pre @ rest) r = resolve rest r"
  using assms by (induction pre) auto

lemma resolve_takes_present:
  assumes "source_values kind key r \<noteq> []"
  shows "resolve ((kind, key) # post) r = Some (source_values kind key r)"
  using assms by simp

lemma resolve_Some_first_present:
  assumes "resolve srcs r = Some raw"
  shows "\<exists>pre kind key post. srcs = pre @ (kind, key) # post
           \<and> (\<forall>s \<in> set pre. source_values (fst s) (snd s) r = [])
           \<and> raw = source_values kind key r \<and> raw \<noteq> []"
  using assms
proof (induction srcs)
  case Nil
  then show ?case by simp
next
  case (Cons s srcs)
  obtain kind key where s: "s = (kind, key)"
    by (cases s)
  show ?case
  proof (cases "source_values kind key r = []")
    case True
    with Cons.prems s have "resolve srcs r = Some raw"
      by simp
    from Cons.IH[OF this] obtain pre kind' key' post where
      "srcs = pre @ (kind', key') # post"
      "\<forall>s \<in> set pre. source_values (fst s) (snd s) r = []"
      "raw = source_values kind' key' r" "raw \<noteq> []"
      by blast
    with True s have "s # srcs = (s # pre) @ (kind', key') # post"
      "\<forall>s \<in> set (s # pre). source_values (fst s) (snd s) r = []"
      "raw = source_values kind' key' r" "raw \<noteq> []"
      by simp_all
    then show ?thesis by blast
  next
    case False
    with Cons.prems s have "raw = source_values kind key r"
      by simp
    with False s have "s # srcs = [] @ (kind, key) # srcs"
      "\<forall>s \<in> set []. source_values (fst s) (snd s) r = []"
      "raw = source_values kind key r" "raw \<noteq> []"
      by simp_all
    then show ?thesis by blast
  qed
qed

text \<open>
  Claim C5, for the resolver as the specification describes it. The first source in
  declared order that yields a value gives the result, whatever sources are declared
  after it; a result always comes from a source before which every source is absent;
  and a query parameter that is present with the empty string as its value is
  present, so it wins over any source declared after it.
\<close>

theorem first_present_source_wins:
  "((\<forall>s \<in> set pre. source_values (fst s) (snd s) r = []) \<and> source_values kind key r \<noteq> []
      \<longrightarrow> resolve (pre @ (kind, key) # post) r = Some (source_values kind key r))
   \<and> (resolve srcs r = Some raw
      \<longrightarrow> (\<exists>pre kind key post. srcs = pre @ (kind, key) # post
             \<and> (\<forall>s \<in> set pre. source_values (fst s) (snd s) r = [])
             \<and> raw = source_values kind key r \<and> raw \<noteq> []))
   \<and> ((name, []) \<in> set (query r)
      \<longrightarrow> resolve ((query_parameter, name) # post) r = Some (source_values query_parameter name r)
          \<and> [] \<in> set (source_values query_parameter name r))"
proof (intro conjI impI)
  assume "(\<forall>s \<in> set pre. source_values (fst s) (snd s) r = []) \<and> source_values kind key r \<noteq> []"
  then show "resolve (pre @ (kind, key) # post) r = Some (source_values kind key r)"
    using resolve_skips_absent[of pre r "(kind, key) # post"] resolve_takes_present[of kind key r post]
    by simp
next
  assume "resolve srcs r = Some raw"
  then show "\<exists>pre kind key post. srcs = pre @ (kind, key) # post
           \<and> (\<forall>s \<in> set pre. source_values (fst s) (snd s) r = [])
           \<and> raw = source_values kind key r \<and> raw \<noteq> []"
    by (rule resolve_Some_first_present)
next
  assume present: "(name, []) \<in> set (query r)"
  then have "source_values query_parameter name r \<noteq> []"
    using values_of_present[of name "[]" "query r"] by simp
  then show "resolve ((query_parameter, name) # post) r = Some (source_values query_parameter name r)"
    by (rule resolve_takes_present)
  from present show "[] \<in> set (source_values query_parameter name r)"
    by (force simp: values_of_def)
qed

theorem first_present_source_wins_witness:
  "source_values query_parameter ''token'' fallback_request = []
   \<and> source_values header_field ''X-Token'' fallback_request \<noteq> []
   \<and> resolve [(query_parameter, ''token''), (header_field, ''X-Token'')] fallback_request
       = Some [''secret'']
   \<and> (''token'', []) \<in> set (query invalid_request)
   \<and> resolve [(query_parameter, ''token''), (header_field, ''X-Token'')] invalid_request
       = Some [[]]"
proof -
  have absent:
    "\<forall>s \<in> set [(query_parameter, ''token'')]. source_values (fst s) (snd s) fallback_request = []"
    by (simp add: example_defs fallback_request_def)
  have header_present: "source_values header_field ''X-Token'' fallback_request \<noteq> []"
    by (simp add: example_defs fallback_request_def)
  have empty_present: "(''token'', []) \<in> set (query invalid_request)"
    by (simp add: example_defs)
  have "resolve ([(query_parameter, ''token'')] @ (header_field, ''X-Token'') # []) fallback_request
      = Some (source_values header_field ''X-Token'' fallback_request)"
    using first_present_source_wins[of "[(query_parameter, ''token'')]" fallback_request
        header_field "''X-Token''" "[]"]
      absent header_present
    by blast
  moreover have "resolve ((query_parameter, ''token'') # [(header_field, ''X-Token'')]) invalid_request
      = Some (source_values query_parameter ''token'' invalid_request)"
    using first_present_source_wins[where r = invalid_request and name = "''token''"
        and post = "[(header_field, ''X-Token'')]"]
      empty_present
    by blast
  ultimately show ?thesis
    using absent header_present empty_present
    by (simp add: example_defs fallback_request_def)
qed

subsection \<open>Validation\<close>

declare violations.simps [simp del]

lemma violations_each_complete:
  assumes "j < length xs"
    and "x \<in> set (violations holds (p @ [Index_step (i + j)]) d' (xs ! j))"
  shows "x \<in> set (violations_each holds p d' i xs)"
  using assms
proof (induction xs arbitrary: i j)
  case Nil
  then show ?case by simp
next
  case (Cons y ys)
  show ?case
  proof (cases j)
    case 0
    with Cons.prems show ?thesis by simp
  next
    case (Suc j')
    with Cons.prems have "j' < length ys"
      and "x \<in> set (violations holds (p @ [Index_step (Suc i + j')]) d' (ys ! j'))"
      by simp_all
    then have "x \<in> set (violations_each holds p d' (Suc i) ys)"
      by (rule Cons.IH)
    then show ?thesis by simp
  qed
qed

lemma violations_fields_complete:
  assumes "(name, v) \<in> set fs" and "map_of ds name = Some d'"
    and "x \<in> set (violations holds (p @ [Field_step name]) d' v)"
  shows "x \<in> set (violations_fields holds p ds fs)"
  using assms by (induction fs) auto

lemma violates_at_value:
  assumes "rule \<in> set (rules d)" and "\<not> holds rule v"
  shows "violates holds d v [] rule"
  using assms by simp

lemma violates_at_element:
  assumes "each d = Some d'" and "i < length xs" and "violates holds d' (xs ! i) p rule"
  shows "violates holds d (Seq_val xs) (Index_step i # p) rule"
  using assms by simp

lemma violates_at_field:
  assumes "(name, v) \<in> set fs" and "map_of (nested d) name = Some d'"
    and "violates holds d' v p rule"
  shows "violates holds d (Struct_val fs) (Field_step name # p) rule"
  using assms by (force simp: values_of_def)

lemma violations_complete:
  assumes "violates holds d v q rule"
  shows "(p @ q, rule) \<in> set (violations holds p d v)"
  using assms
proof (induction holds d v q rule arbitrary: p rule: violates.induct)
  case (1 holds d v rule)
  then show ?case by (simp add: violations.simps)
next
  case (2 holds d xs i q rule)
  from "2.prems" obtain d' where d': "each d = Some d'" and i: "i < length xs"
    and below: "violates holds d' (xs ! i) q rule"
    by (auto split: option.splits)
  have "(p @ Index_step i # q, rule) \<in> set (violations holds (p @ [Index_step (0 + i)]) d' (xs ! i))"
    using "2.IH"[OF d' below, of "p @ [Index_step i]"] by simp
  with i have "(p @ Index_step i # q, rule) \<in> set (violations_each holds p d' 0 xs)"
    by (rule violations_each_complete)
  with d' show ?case by (simp add: violations.simps)
next
  case (3 holds d fs name q rule)
  from "3.prems" obtain d' v where d': "map_of (nested d) name = Some d'"
    and mem: "v \<in> set (values_of fs name)" and below: "violates holds d' v q rule"
    by (auto split: option.splits)
  from mem have in_fs: "(name, v) \<in> set fs"
    by (auto simp: values_of_def)
  have "(p @ Field_step name # q, rule) \<in> set (violations holds (p @ [Field_step name]) d' v)"
    using "3.IH"[OF d' mem below, of "p @ [Field_step name]"] by simp
  with in_fs d' have "(p @ Field_step name # q, rule) \<in> set (violations_fields holds p (nested d) fs)"
    by (rule violations_fields_complete)
  then show ?case by (simp add: violations.simps)
qed simp_all

lemma violations_sound:
  "x \<in> set (violations holds p d v) \<Longrightarrow> \<exists>q. fst x = p @ q \<and> violates holds d v q (snd x)"
  "x \<in> set (violations_each holds p d' i xs) \<Longrightarrow>
     \<exists>j q. j < length xs \<and> fst x = p @ Index_step (i + j) # q \<and> violates holds d' (xs ! j) q (snd x)"
  "x \<in> set (violations_fields holds p ds fs) \<Longrightarrow>
     \<exists>name v d' q. (name, v) \<in> set fs \<and> map_of ds name = Some d'
        \<and> fst x = p @ Field_step name # q \<and> violates holds d' v q (snd x)"
proof (induction holds p d v and holds p d' i xs and holds p ds fs
    arbitrary: x and x and x rule: violations_violations_each_violations_fields.induct)
  case (1 holds p d v)
  have "x \<in> set (map (\<lambda>rule. (p, rule)) (filter (\<lambda>rule. \<not> holds rule v) (rules d)))
      \<or> (\<exists>xs d'. v = Seq_val xs \<and> each d = Some d' \<and> x \<in> set (violations_each holds p d' 0 xs))
      \<or> (\<exists>fs. v = Struct_val fs \<and> x \<in> set (violations_fields holds p (nested d) fs))"
    using "1.prems" by (cases v; cases "each d") (auto simp: violations.simps)
  then consider
      (here) "x \<in> set (map (\<lambda>rule. (p, rule)) (filter (\<lambda>rule. \<not> holds rule v) (rules d)))"
    | (elem) xs d' where "v = Seq_val xs" "each d = Some d'"
        "x \<in> set (violations_each holds p d' 0 xs)"
    | (fld) fs where "v = Struct_val fs" "x \<in> set (violations_fields holds p (nested d) fs)"
    by blast
  then show ?case
  proof cases
    case here
    then have "fst x = p @ []" "violates holds d v [] (snd x)"
      by (auto intro: violates_at_value)
    then show ?thesis by blast
  next
    case elem
    from "1.IH"(1)[OF elem(1,2,3)] obtain j q where
      "j < length xs" "fst x = p @ Index_step (0 + j) # q" "violates holds d' (xs ! j) q (snd x)"
      by blast
    then have "fst x = p @ (Index_step j # q)"
      and "violates holds d (Seq_val xs) (Index_step j # q) (snd x)"
      using violates_at_element[OF elem(2), of j xs holds q "snd x"] by simp_all
    with elem(1) show ?thesis by blast
  next
    case fld
    from "1.IH"(2)[OF fld(1,2)] obtain name v' d' q where
      "(name, v') \<in> set fs" "map_of (nested d) name = Some d'" "fst x = p @ Field_step name # q"
      "violates holds d' v' q (snd x)"
      by blast
    then have "fst x = p @ (Field_step name # q)"
      and "violates holds d (Struct_val fs) (Field_step name # q) (snd x)"
      using violates_at_field[of name v' fs d d' holds q "snd x"] by simp_all
    with fld(1) show ?thesis by blast
  qed
next
  case (2 holds p d' i)
  then show ?case by simp
next
  case (3 holds p d' i y ys)
  from "3.prems" consider
      (head) "x \<in> set (violations holds (p @ [Index_step i]) d' y)"
    | (tail) "x \<in> set (violations_each holds p d' (Suc i) ys)"
    by auto
  then show ?case
  proof cases
    case head
    from "3.IH"(1)[OF head] obtain q where
      "fst x = (p @ [Index_step i]) @ q" "violates holds d' y q (snd x)"
      by blast
    then have "0 < length (y # ys)" "fst x = p @ Index_step (i + 0) # q"
      "violates holds d' ((y # ys) ! 0) q (snd x)"
      by simp_all
    then show ?thesis by blast
  next
    case tail
    from "3.IH"(2)[OF tail] obtain j q where
      "j < length ys" "fst x = p @ Index_step (Suc i + j) # q" "violates holds d' (ys ! j) q (snd x)"
      by blast
    then have "Suc j < length (y # ys)" "fst x = p @ Index_step (i + Suc j) # q"
      "violates holds d' ((y # ys) ! Suc j) q (snd x)"
      by simp_all
    then show ?thesis by blast
  qed
next
  case (4 holds p ds)
  then show ?case by simp
next
  case (5 holds p ds name v fs)
  have "(\<exists>d'. map_of ds name = Some d' \<and> x \<in> set (violations holds (p @ [Field_step name]) d' v))
      \<or> x \<in> set (violations_fields holds p ds fs)"
    using "5.prems" by (cases "map_of ds name") auto
  then consider
      (head) d' where "map_of ds name = Some d'"
        "x \<in> set (violations holds (p @ [Field_step name]) d' v)"
    | (tail) "x \<in> set (violations_fields holds p ds fs)"
    by blast
  then show ?case
  proof cases
    case head
    from "5.IH"(1)[OF head] obtain q where
      "fst x = (p @ [Field_step name]) @ q" "violates holds d' v q (snd x)"
      by blast
    with head(1) have "(name, v) \<in> set ((name, v) # fs)" "map_of ds name = Some d'"
      "fst x = p @ Field_step name # q" "violates holds d' v q (snd x)"
      by simp_all
    then show ?thesis by blast
  next
    case tail
    from "5.IH"(2)[OF tail] obtain name' v' d' q where
      "(name', v') \<in> set fs" "map_of ds name' = Some d'" "fst x = p @ Field_step name' # q"
      "violates holds d' v' q (snd x)"
      by blast
    then have "(name', v') \<in> set ((name, v) # fs)" "map_of ds name' = Some d'"
      "fst x = p @ Field_step name' # q" "violates holds d' v' q (snd x)"
      by simp_all
    then show ?thesis by blast
  qed
qed

lemma violations_iff_violates:
  "(q, rule) \<in> set (violations holds [] d v) \<longleftrightarrow> violates holds d v q rule"
  using violations_sound(1)[of "(q, rule)" holds "[]" d v]
    violations_complete[of holds d v q rule "[]"]
  by auto

lemma validate_rejects:
  assumes "violates holds d x p0 rule0"
  shows "validate holds d x = Some (ValidationError (violations holds [] d x))"
proof -
  from assms have "(p0, rule0) \<in> set (violations holds [] d x)"
    by (simp add: violations_iff_violates)
  then have "violations holds [] d x \<noteq> []"
    by (metis empty_iff empty_set)
  then show ?thesis
    by (cases "violations holds [] d x") (simp_all add: validate_def)
qed

text \<open>
  Claim C4, for a validator that behaves as the specification's engine. When the
  decoded instance violates at least one rule, the handler in force is called once,
  with a single validation error, and that error lists a rule at a path exactly when
  the rule is declared there and violated: every violation in the whole structure,
  nested structures and sequence elements included, and nothing else.
\<close>

theorem validation_error_lists_every_violation:
  assumes "Decode core r = Inr (ptr T (Some x))"
    and "getValidator g = Some v"
    and "Struct v (ptr T (Some x)) = validate holds d x"
    and "violates holds d x p0 rule0"
    and "errorHandler opts = Some h \<or> (errorHandler opts = None \<and> getErrorHandler g = Some h)"
  shows "\<exists>vs. ServeHTTP opts core next g w r = Inr (h w r (ValidationError vs))
           \<and> (\<forall>p rule. (p, rule) \<in> set vs \<longleftrightarrow> violates holds d x p rule)"
proof -
  let ?vs = "violations holds [] d x"
  have "Struct v (ptr T (Some x)) = Some (ValidationError ?vs)"
    using assms(3) validate_rejects[OF assms(4)] by simp
  with assms(1,2) have "ServeHTTP opts core next g w r = handleError g w r opts (ValidationError ?vs)"
    using ServeHTTP_failure[of core r "ValidationError ?vs" g opts "next" w] by blast
  then have "ServeHTTP opts core next g w r = Inr (h w r (ValidationError ?vs))"
    using handleError_calls_handler[OF assms(5)] by simp
  moreover have "\<forall>p rule. (p, rule) \<in> set ?vs \<longleftrightarrow> violates holds d x p rule"
    by (simp add: violations_iff_violates)
  ultimately show ?thesis by blast
qed

theorem validation_error_lists_every_violation_witness:
  "Decode example_core invalid_request = Inr (ptr ''Input'' (Some invalid_input))
   \<and> getValidator example_registry = Some example_validator
   \<and> Struct example_validator (ptr ''Input'' (Some invalid_input))
       = validate example_holds example_decl invalid_input
   \<and> violates example_holds example_decl invalid_input [Field_step ''Token''] required
   \<and> getErrorHandler example_registry = Some (example_handler ''default'')
   \<and> ServeHTTP \<lparr>errorHandler = None\<rparr> example_core example_next example_registry []
        invalid_request
      = Inr [(''default'', Some (ValidationError
           [([Field_step ''Token''], required),
            ([Field_step ''Name''], min_length 3),
            ([Field_step ''Tags'', Index_step 1], required)]))]
   \<and> (\<forall>p rule. (p, rule) \<in> set [([Field_step ''Token''], required),
                                 ([Field_step ''Name''], min_length 3),
                                 ([Field_step ''Tags'', Index_step 1], required)]
        \<longleftrightarrow> violates example_holds example_decl invalid_input p rule)"
proof -
  let ?found = "[([Field_step ''Token''], required),
                 ([Field_step ''Name''], min_length 3),
                 ([Field_step ''Tags'', Index_step 1], required)]"
  have decoded: "Decode example_core invalid_request = Inr (ptr ''Input'' (Some invalid_input))"
    by (simp add: example_defs)
  have validator: "getValidator example_registry = Some example_validator"
    by (simp add: getValidator_def example_registry_def)
  have engine: "Struct example_validator (ptr ''Input'' (Some invalid_input))
       = validate example_holds example_decl invalid_input"
    by (simp add: example_validator_def)
  have found: "violations example_holds [] example_decl invalid_input = ?found"
    by (simp add: example_decl_def invalid_input_def violations.simps)
  have violated: "violates example_holds example_decl invalid_input [Field_step ''Token''] required"
    by (simp add: example_decl_def invalid_input_def values_of_def)
  have handler: "errorHandler \<lparr>errorHandler = None\<rparr> = Some (example_handler ''default'')
      \<or> (errorHandler \<lparr>errorHandler = None\<rparr> = None
          \<and> getErrorHandler example_registry = Some (example_handler ''default''))"
    by (simp add: getErrorHandler_def example_registry_def)
  from validation_error_lists_every_violation[OF decoded validator engine violated handler,
      where ?next = example_next and w = "[]"]
  obtain vs where
    served: "ServeHTTP \<lparr>errorHandler = None\<rparr> example_core example_next example_registry []
        invalid_request = Inr (example_handler ''default'' [] invalid_request (ValidationError vs))"
    and listed: "\<forall>p rule. (p, rule) \<in> set vs
        \<longleftrightarrow> violates example_holds example_decl invalid_input p rule"
    by blast
  have "ServeHTTP \<lparr>errorHandler = None\<rparr> example_core example_next example_registry []
        invalid_request = Inr [(''default'', Some (ValidationError ?found))]"
    using decoded validator engine found
    by (simp add: ServeHTTP_def handleError_def validate_def getErrorHandler_def
        example_registry_def example_handler_def)
  with served have "vs = ?found"
    by (simp add: example_handler_def)
  with served listed decoded validator engine violated handler show ?thesis
    by (simp add: example_handler_def)
qed

end
